theory Spec2Isabelle
  imports Main "HOL-Library.Sublist"
begin

section \<open>JavaScript strings, arrays and objects\<close>

text \<open>
  A JavaScript string is modelled by the list of the bytes of its UTF-8 encoding. The
  separators the plugin splits on (newline, colon, space), the hash prefixes and the
  characters \<open>encodeURIComponent\<close> leaves alone are all ASCII, so splitting, prefix
  tests and percent-encoding act on the bytes as they act on the string. A string with
  a lone surrogate, on which \<open>encodeURIComponent\<close> throws, has no such encoding and is
  not a value of the model.
\<close>

text \<open>\<open>s.split(sep)\<close> for a one-character separator: never empty, \<open>"".split(sep)\<close> is \<open>[""]\<close>.\<close>

fun str_split :: "char \<Rightarrow> string \<Rightarrow> string list" where
  "str_split sep [] = [[]]"
| "str_split sep (c # cs) =
     (if c = sep then [] # str_split sep cs
      else (case str_split sep cs of
              w # ws \<Rightarrow> (c # w) # ws
            | [] \<Rightarrow> [[c]]))"

text \<open>\<open>s.split(sep, limit)\<close>: the first \<open>limit\<close> pieces.\<close>

definition str_split_limit :: "char \<Rightarrow> nat \<Rightarrow> string \<Rightarrow> string list" where
  "str_split_limit sep limit s = take limit (str_split sep s)"

text \<open>\<open>s.indexOf(pat)\<close>: the position of the first occurrence, \<open>-1\<close> when there is none.\<close>

fun indexOf_from :: "nat \<Rightarrow> string \<Rightarrow> string \<Rightarrow> int" where
  "indexOf_from i [] pat = (if pat = [] then int i else - 1)"
| "indexOf_from i (c # s) pat =
     (if prefix pat (c # s) then int i else indexOf_from (Suc i) s pat)"

definition str_indexOf :: "string \<Rightarrow> string \<Rightarrow> int" where
  "str_indexOf s pat = indexOf_from 0 s pat"

text \<open>\<open>s.substr(n)\<close>: the string from position \<open>n\<close> on.\<close>

definition str_substr :: "string \<Rightarrow> nat \<Rightarrow> string" where
  "str_substr s n = drop n s"

text \<open>\<open>xs.join(sep)\<close> and \<open>xs.includes(x)\<close>.\<close>

fun arr_join :: "string \<Rightarrow> string list \<Rightarrow> string" where
  "arr_join sep [] = []"
| "arr_join sep [x] = x"
| "arr_join sep (x # y # ys) = x @ sep @ arr_join sep (y # ys)"

definition arr_includes :: "'a list \<Rightarrow> 'a \<Rightarrow> bool" where
  "arr_includes xs x = (x \<in> set xs)"

text \<open>
  \<open>encodeURIComponent\<close>: the characters \<open>A-Z a-z 0-9 - _ . ! ~ * ' ( )\<close> stay, every
  other byte becomes \<open>%XX\<close> with two upper-case hexadecimal digits.
\<close>

definition uri_unreserved :: "char \<Rightarrow> bool" where
  "uri_unreserved c =
     (c \<in> set ''ABCDEFGHIJKLMNOPQRSTUVWXYZabcdefghijklmnopqrstuvwxyz0123456789-_.!~*'()'')"

definition hex_digit :: "nat \<Rightarrow> char" where
  "hex_digit n = ''0123456789ABCDEF'' ! (n mod 16)"

definition percent_encode :: "char \<Rightarrow> string" where
  "percent_encode c =
     [CHR ''%'', hex_digit (of_char c div 16), hex_digit (of_char c mod 16)]"

definition encodeURIComponent :: "string \<Rightarrow> string" where
  "encodeURIComponent s =
     concat (map (\<lambda>c. if uri_unreserved c then [c] else percent_encode c) s)"

text \<open>
  An object literal \<open>{}\<close> used as a dictionary is modelled by the list of its own
  properties, in the order \<open>Object.keys\<close> enumerates them: keys that are array indices
  first, in ascending order, then the other keys in the order of their creation.
  A loop \<open>for (const k of Object.keys(obj)) { const v = obj[k]; ... }\<close> runs over
  this list of pairs.

  The prototype of the object is \<open>Object.prototype\<close>. An assignment
  \<open>obj['__proto__'] = v\<close> calls the setter inherited from it and creates no own
  property. \<open>obj_get\<close> reads an own property. \<open>obj_read\<close>, further down, is the read
  \<open>obj[k]\<close> with any key: a key that is not an own property but names a property of
  \<open>Object.prototype\<close> reads as the inherited function or object, and any other missing
  key as \<open>undefined\<close> (\<open>None\<close>).
\<close>

type_synonym 'v object = "(string \<times> 'v) list"

definition obj_get :: "'v object \<Rightarrow> string \<Rightarrow> 'v option" where
  "obj_get obj k = map_of obj k"

definition object_keys :: "'v object \<Rightarrow> string list" where
  "object_keys obj = map fst obj"

definition is_digit :: "char \<Rightarrow> bool" where
  "is_digit c = (c \<in> set ''0123456789'')"

definition digits_value :: "string \<Rightarrow> int" where
  "digits_value s = foldl (\<lambda>n c. 10 * n + (of_char c - 48)) 0 s"

text \<open>An array index is the canonical decimal numeral of an integer below \<open>2^32 - 1\<close>.\<close>

definition array_index :: "string \<Rightarrow> int option" where
  "array_index s =
     (if s \<noteq> [] \<and> list_all is_digit s \<and> (if hd s = CHR ''0'' then s = ''0'' else True)
         \<and> digits_value s < 4294967295
      then Some (digits_value s) else None)"

definition key_precedes :: "string \<Rightarrow> string \<Rightarrow> bool" where
  "key_precedes k k' =
     (case array_index k of
        None \<Rightarrow> False
      | Some n \<Rightarrow> (case array_index k' of None \<Rightarrow> True | Some m \<Rightarrow> n < m))"

fun obj_insert :: "string \<Rightarrow> 'v \<Rightarrow> 'v object \<Rightarrow> 'v object" where
  "obj_insert k v [] = [(k, v)]"
| "obj_insert k v ((k', v') # rest) =
     (if key_precedes k k' then (k, v) # (k', v') # rest
      else (k', v') # obj_insert k v rest)"

fun obj_replace :: "string \<Rightarrow> 'v \<Rightarrow> 'v object \<Rightarrow> 'v object" where
  "obj_replace k v [] = []"
| "obj_replace k v ((k', v') # rest) =
     (if k' = k then (k, v) # rest else (k', v') # obj_replace k v rest)"

text \<open>\<open>obj[k] = v\<close>: an existing key keeps its place, a new key is created.\<close>

definition obj_set :: "string \<Rightarrow> 'v \<Rightarrow> 'v object \<Rightarrow> 'v object" where
  "obj_set k v obj =
     (if k = ''__proto__'' then obj
      else if k \<in> set (object_keys obj) then obj_replace k v obj
      else obj_insert k v obj)"

text \<open>\<open>Object.assign(target, source)\<close>: every own property of the source is assigned.\<close>

definition object_assign :: "'v object \<Rightarrow> 'v object \<Rightarrow> 'v object" where
  "object_assign target source = foldl (\<lambda>t (k, v). obj_set k v t) target source"

text \<open>
  What the user map yields on a read: a string, or a value inherited from
  \<open>Object.prototype\<close>, which is a function or an object and never a string. The names
  are those of the properties of \<open>Object.prototype\<close> in node.
\<close>

datatype js_value = Str string | Inherited

definition object_prototype_names :: "string list" where
  "object_prototype_names =
     [''constructor'', ''__defineGetter__'', ''__defineSetter__'', ''hasOwnProperty'',
      ''__lookupGetter__'', ''__lookupSetter__'', ''isPrototypeOf'', ''propertyIsEnumerable'',
      ''toString'', ''valueOf'', ''__proto__'', ''toLocaleString'']"

definition obj_read :: "string object \<Rightarrow> string \<Rightarrow> js_value option" where
  "obj_read obj k =
     (case obj_get obj k of
        Some v \<Rightarrow> Some (Str v)
      | None \<Rightarrow> if k \<in> set object_prototype_names then Some Inherited else None)"

text \<open>The test \<open>if (v)\<close>: \<open>undefined\<close> and the empty string are falsy.\<close>

fun truthy :: "js_value option \<Rightarrow> bool" where
  "truthy None = False"
| "truthy (Some (Str s)) = (s \<noteq> [])"
| "truthy (Some Inherited) = True"

text \<open>
  Errors: \<open>Error(message)\<close> with its \<open>status\<close> field, a file-system error with its
  \<open>code\<close>, the \<open>TypeError\<close> of a method call on a value that has no such method, and
  an \<open>Error(message)\<close> thrown by a library.
\<close>

datatype js_error = HttpError nat string | FsError string | TypeError | JsError string

section \<open>utils: the two file formats\<close>

definition parseHTPasswd_line :: "string object \<Rightarrow> string \<Rightarrow> string object" where
  "parseHTPasswd_line result line =
     (let args = str_split_limit (CHR '':'') 3 line
      in if length args > 1 then obj_set (args ! 0) (args ! 1) result else result)"

definition parseHTPasswd :: "string \<Rightarrow> string object" where
  "parseHTPasswd input = foldl parseHTPasswd_line [] (str_split (CHR 0x0A) input)"

definition parseHTgroup_line :: "string list object \<Rightarrow> string \<Rightarrow> string list object" where
  "parseHTgroup_line result line =
     (let args = str_split_limit (CHR '':'') 2 line;
          groupName = args ! 0;
          groupUsers = (if length args > 1 then str_split (CHR '' '') (args ! 1) else [])
      in obj_set groupName groupUsers result)"

definition parseHTgroup :: "string \<Rightarrow> string list object" where
  "parseHTgroup input = foldl parseHTgroup_line [] (str_split (CHR 0x0A) input)"

definition serializeHTgroups :: "string list object \<Rightarrow> string" where
  "serializeHTgroups groupsObj =
     foldl (\<lambda>body (groupName, groupUsers). body @ groupName @ '': '' @ arr_join '' '' groupUsers)
       [] groupsObj"

definition getGroupsForUser :: "string list object \<Rightarrow> string \<Rightarrow> string list" where
  "getGroupsForUser groupsObj user =
     foldl (\<lambda>userGroups (groupName, groupUsers).
              if arr_includes groupUsers user then userGroups @ [groupName] else userGroups)
       [user] groupsObj"

text \<open>
  \<open>addUserToHTGroup\<close> changes \<open>groupsObj\<close> in place and returns whether it did, or throws.
  The model returns the object as the call leaves it together with the result. The body of
  the \<open>forEach\<close> reads \<open>groupsObj[groupName]\<close> and calls \<open>includes\<close> on it: on a missing
  group that is a call on \<open>undefined\<close>. A missing group whose name is that of a property
  of \<open>Object.prototype\<close> reads as a function or object without a method \<open>includes\<close>:
  the same \<open>TypeError\<close>.
\<close>

fun addUserToHTGroup_forEach ::
  "string list object \<Rightarrow> string \<Rightarrow> bool \<Rightarrow> string list \<Rightarrow> string list object \<times> (js_error + bool)"
where
  "addUserToHTGroup_forEach groupsObj user groupsModified [] = (groupsObj, Inr groupsModified)"
| "addUserToHTGroup_forEach groupsObj user groupsModified (groupName # rest) =
     (case obj_get groupsObj groupName of
        None \<Rightarrow> (groupsObj, Inl TypeError)
      | Some groupUsers \<Rightarrow>
          if \<not> arr_includes groupUsers user
          then addUserToHTGroup_forEach
                 (obj_replace groupName (groupUsers @ [user]) groupsObj) user True rest
          else addUserToHTGroup_forEach groupsObj user groupsModified rest)"

definition uri_error :: js_error where
  "uri_error = HttpError 409 ''username should not contain non-uri-safe characters''"

definition addUserToHTGroup ::
  "string list object \<Rightarrow> string \<Rightarrow> string list \<Rightarrow> string list object \<times> (js_error + bool)"
where
  "addUserToHTGroup groupsObj user groups =
     (if user \<noteq> encodeURIComponent user then (groupsObj, Inl uri_error)
      else addUserToHTGroup_forEach groupsObj user False groups)"

section \<open>utils: passwords\<close>

text \<open>
  The hash functions come from libraries (\<open>bcryptjs\<close>, \<open>apache-md5\<close>, node's \<open>crypto\<close>)
  and from the module \<open>./crypt3\<close>, which is not among the sources: they are parameters
  of the model. \<open>crypt3(passwd, salt)\<close> is \<open>crypt3\<close>, the call \<open>crypt3(passwd)\<close> that
  draws a salt of its own is \<open>crypt3_fresh\<close>, and the test \<open>if (crypt3)\<close> of the imported
  binding is \<open>crypt3_loaded\<close>. \<open>sha1_base64 passwd\<close> stands for
  \<open>crypto.createHash('sha1').update(passwd, 'binary').digest('base64')\<close>.
  \<open>bcrypt.compareSync\<close> returns a truth value or throws: \<open>bcryptjs\<close> throws on a hash of
  60 characters whose salt part is malformed. The two hash functions called with the stored
  hash for a salt, \<open>md5\<close> and \<open>crypt3\<close>, likewise return a string or throw.
\<close>

record crypto =
  bcrypt_compareSync :: "string \<Rightarrow> string \<Rightarrow> js_error + bool"
  sha1_base64 :: "string \<Rightarrow> string"
  md5 :: "string \<Rightarrow> string \<Rightarrow> js_error + string"
  crypt3 :: "string \<Rightarrow> string \<Rightarrow> js_error + string"
  crypt3_fresh :: "string \<Rightarrow> string"
  crypt3_loaded :: bool

text \<open>\<open>hash.match(/^\$2(a|b|y)\$/)\<close>, as a truth value.\<close>

definition match_bcrypt :: "string \<Rightarrow> bool" where
  "match_bcrypt hash =
     (case hash of
        c1 # c2 # c3 # c4 # _ \<Rightarrow>
          c1 = CHR ''$'' \<and> c2 = CHR ''2''
          \<and> (c3 = CHR ''a'' \<or> c3 = CHR ''b'' \<or> c3 = CHR ''y'') \<and> c4 = CHR ''$''
      | _ \<Rightarrow> False)"

text \<open>
  \<open>verifyPassword\<close> returns a truth value or throws. Its first step is the call
  \<open>hash.match\<close>: on a value that is not a string there is no such method.
\<close>

definition verifyPassword :: "crypto \<Rightarrow> string \<Rightarrow> js_value \<Rightarrow> js_error + bool" where
  "verifyPassword c passwd hash_value =
     (case hash_value of
        Inherited \<Rightarrow> Inl TypeError
      | Str hash \<Rightarrow>
          if match_bcrypt hash then bcrypt_compareSync c passwd hash
          else if str_indexOf hash ''{PLAIN}'' = 0 then Inr (passwd = str_substr hash 7)
          else if str_indexOf hash ''{SHA}'' = 0
          then Inr (sha1_base64 c passwd = str_substr hash 5)
          else (case md5 c passwd hash of
                  Inl thrown \<Rightarrow> Inl thrown
                | Inr digest \<Rightarrow>
                    if digest = hash then Inr True
                    else (case crypt3 c passwd hash of
                            Inl thrown \<Rightarrow> Inl thrown
                          | Inr crypted \<Rightarrow> Inr (crypted = hash))))"

text \<open>
  The scheme of a stored hash as the specification words it: a tag read off the prefix,
  and one comparison per tag.
\<close>

datatype scheme = Bcrypt | Plain | Sha | Legacy

definition scheme_of :: "string \<Rightarrow> scheme" where
  "scheme_of hash =
     (if prefix ''$2a$'' hash \<or> prefix ''$2b$'' hash \<or> prefix ''$2y$'' hash then Bcrypt
      else if prefix ''{PLAIN}'' hash then Plain
      else if prefix ''{SHA}'' hash then Sha
      else Legacy)"

definition verify_by_scheme :: "crypto \<Rightarrow> string \<Rightarrow> string \<Rightarrow> js_error + bool" where
  "verify_by_scheme c plaintext storedHash =
     (case scheme_of storedHash of
        Bcrypt \<Rightarrow> bcrypt_compareSync c plaintext storedHash
      | Plain \<Rightarrow> Inr (plaintext = drop (length ''{PLAIN}'') storedHash)
      | Sha \<Rightarrow> Inr (sha1_base64 c plaintext = drop (length ''{SHA}'') storedHash)
      | Legacy \<Rightarrow>
          (case md5 c plaintext storedHash of
             Inl thrown \<Rightarrow> Inl thrown
           | Inr md5_crypt \<Rightarrow>
               if md5_crypt = storedHash then Inr True
               else (case crypt3 c plaintext storedHash of
                       Inl thrown \<Rightarrow> Inl thrown
                     | Inr des_crypt \<Rightarrow> Inr (des_crypt = storedHash))))"

text \<open>
  \<open>addUserToHTPasswd\<close>: \<open>now\<close> is \<open>new Date().toJSON()\<close>. The function throws on a user
  name that is not its own percent-encoding.
\<close>

definition addUserToHTPasswd ::
  "crypto \<Rightarrow> string \<Rightarrow> string \<Rightarrow> string \<Rightarrow> string \<Rightarrow> js_error + string"
where
  "addUserToHTPasswd c now body user passwd =
     (if user \<noteq> encodeURIComponent user then Inl uri_error
      else
        let passwd' = (if crypt3_loaded c then crypt3_fresh c passwd
                       else ''{SHA}'' @ sha1_base64 c passwd);
            comment = ''autocreated '' @ now;
            newline = user @ '':'' @ passwd' @ '':'' @ comment @ [CHR 0x0A];
            newline' = (if body \<noteq> [] \<and> last body \<noteq> CHR 0x0A then CHR 0x0A # newline
                        else newline)
        in Inr (body @ newline'))"

text \<open>\<open>maxUsers\<close> is a number or \<open>Infinity\<close>; \<open>ge_number n m\<close> is \<open>n >= m\<close>.\<close>

datatype number = Num int | Infinity

fun ge_number :: "nat \<Rightarrow> number \<Rightarrow> bool" where
  "ge_number n (Num m) = (m \<le> int n)"
| "ge_number n Infinity = False"

text \<open>
  \<open>sanityCheck\<close> returns an error (\<open>Inr (Some err)\<close>) or \<open>null\<close> (\<open>Inr None\<close>), or it
  throws (\<open>Inl\<close>) what \<open>verifyFn\<close> throws: the call of \<open>verifyFn\<close> is not guarded.
\<close>

definition sanityCheck ::
  "string \<Rightarrow> string \<Rightarrow> (string \<Rightarrow> js_value \<Rightarrow> js_error + bool) \<Rightarrow> string object \<Rightarrow> number
     \<Rightarrow> js_error + js_error option"
where
  "sanityCheck user password verifyFn users maxUsers =
     (if user = [] \<or> password = []
      then Inr (Some (HttpError 400 ''username and password is required''))
      else
        let hash = obj_read users user
        in if truthy hash
           then (case verifyFn password (the hash) of
                   Inl thrown \<Rightarrow> Inl thrown
                 | Inr auth \<Rightarrow>
                     if auth then Inr (Some (HttpError 409 ''username is already registered''))
                     else Inr (Some (HttpError 401 ''unauthorized access'')))
           else if ge_number (length (object_keys users)) maxUsers
           then Inr (Some (HttpError 403 ''maximum amount of users reached''))
           else Inr None)"

section \<open>The plugin and the files it works on\<close>

text \<open>
  A \<open>Date\<close> object is its identity together with its time value. \<open>===\<close> on two objects
  compares identities, and \<open>null === d\<close> is false.
\<close>

record date =
  date_ref :: nat
  date_time :: int

definition strict_eq :: "date option \<Rightarrow> date \<Rightarrow> bool" where
  "strict_eq lastSeen d =
     (case lastSeen of None \<Rightarrow> False | Some d' \<Rightarrow> date_ref d' = date_ref d)"

text \<open>The fields of an \<open>HTPasswd\<close> instance that the operations read and write.\<close>

record htpasswd =
  users :: "string object"
  groups :: "string list object"
  maxUsers :: number
  lastTime :: "date option"
  lastTimeGroup :: "date option"

text \<open>
  The two files, \<open>this.path\<close> and \<open>this.groupPath\<close>: the contents (\<open>None\<close> when the file
  does not exist), the modification time, and whether the lock of
  \<open>@verdaccio/file-locking\<close> is held. \<open>next_ref\<close> is the identity of the next object
  the runtime allocates. \<open>events\<close> records, in order, the calls into the file layer,
  the call of the caller's callback, and an exception that nothing in the plugin catches:
  after \<open>Uncaught\<close> the operation does nothing more.
\<close>

datatype path = Passwd | Group

record fs_file =
  content :: "string option"
  mtime :: int
  lock_held :: bool

datatype event =
    LockAndRead path
  | UnlockFile path
  | WriteFile path string
  | Stat path
  | ReadFile path
  | RealCb "js_error option" bool
  | Uncaught js_error

record world =
  passwd_file :: fs_file
  group_file :: fs_file
  next_ref :: nat
  events :: "event list"

text \<open>
  What one operation meets in the file layer: for each kind of call the error code it
  fails with, if it fails for a reason other than a missing file; the time stamp of
  \<open>new Date().toJSON()\<close>; the modification time a successful write leaves.
\<close>

record io =
  lock_fault :: "string option"
  unlock_fault :: "string option"
  write_fault :: "string option"
  stat_fault :: "string option"
  read_fault :: "string option"
  now :: string
  write_time :: int

definition get_file :: "path \<Rightarrow> world \<Rightarrow> fs_file" where
  "get_file p w = (case p of Passwd \<Rightarrow> passwd_file w | Group \<Rightarrow> group_file w)"

definition put_file :: "path \<Rightarrow> fs_file \<Rightarrow> world \<Rightarrow> world" where
  "put_file p f w = (case p of Passwd \<Rightarrow> w\<lparr>passwd_file := f\<rparr> | Group \<Rightarrow> w\<lparr>group_file := f\<rparr>)"

definition emit :: "event \<Rightarrow> world \<Rightarrow> world" where
  "emit e w = w\<lparr>events := events w @ [e]\<rparr>"

text \<open>
  \<open>lockAndRead\<close> locks the file and reads it: it yields an error, and holds no lock, or
  the contents, and holds the lock. A missing file is the error \<open>ENOENT\<close>.
\<close>

definition lockAndRead :: "io \<Rightarrow> path \<Rightarrow> world \<Rightarrow> (js_error + string) \<times> world" where
  "lockAndRead env p w =
     (let w1 = emit (LockAndRead p) w
      in case lock_fault env of
           Some code \<Rightarrow> (Inl (FsError code), w1)
         | None \<Rightarrow>
             (case content (get_file p w1) of
                None \<Rightarrow> (Inl (FsError ''ENOENT''), w1)
              | Some res \<Rightarrow> (Inr res, put_file p ((get_file p w1)\<lparr>lock_held := True\<rparr>) w1)))"

text \<open>\<open>unlockFile\<close> calls back whether or not the release worked.\<close>

definition unlockFile :: "io \<Rightarrow> path \<Rightarrow> world \<Rightarrow> js_error option \<times> world" where
  "unlockFile env p w =
     (let w1 = emit (UnlockFile p) w
      in case unlock_fault env of
           Some code \<Rightarrow> (Some (FsError code), w1)
         | None \<Rightarrow> (None, put_file p ((get_file p w1)\<lparr>lock_held := False\<rparr>) w1))"

definition fs_writeFile :: "io \<Rightarrow> path \<Rightarrow> string \<Rightarrow> world \<Rightarrow> js_error option \<times> world" where
  "fs_writeFile env p body w =
     (let w1 = emit (WriteFile p body) w
      in case write_fault env of
           Some code \<Rightarrow> (Some (FsError code), w1)
         | None \<Rightarrow>
             (None, put_file p ((get_file p w1)\<lparr>content := Some body, mtime := write_time env\<rparr>) w1))"

text \<open>\<open>fs.stat\<close> hands out a new \<open>Stats\<close> object, whose \<open>mtime\<close> is a new \<open>Date\<close>.\<close>

definition fs_stat :: "io \<Rightarrow> path \<Rightarrow> world \<Rightarrow> (js_error + date) \<times> world" where
  "fs_stat env p w =
     (let w1 = emit (Stat p) w
      in case stat_fault env of
           Some code \<Rightarrow> (Inl (FsError code), w1)
         | None \<Rightarrow>
             (case content (get_file p w1) of
                None \<Rightarrow> (Inl (FsError ''ENOENT''), w1)
              | Some _ \<Rightarrow>
                  (Inr \<lparr>date_ref = next_ref w1, date_time = mtime (get_file p w1)\<rparr>,
                   w1\<lparr>next_ref := Suc (next_ref w1)\<rparr>)))"

definition fs_readFile :: "io \<Rightarrow> path \<Rightarrow> world \<Rightarrow> (js_error + string) \<times> world" where
  "fs_readFile env p w =
     (let w1 = emit (ReadFile p) w
      in case read_fault env of
           Some code \<Rightarrow> (Inl (FsError code), w1)
         | None \<Rightarrow>
             (case content (get_file p w1) of
                None \<Rightarrow> (Inl (FsError ''ENOENT''), w1)
              | Some buffer \<Rightarrow> (Inr buffer, w1)))"

text \<open>
  \<open>reload\<close> and \<open>reloadGroups\<close>: the first component of the result is the argument the
  callback is called with.
\<close>

definition reload :: "io \<Rightarrow> htpasswd \<times> world \<Rightarrow> js_error option \<times> htpasswd \<times> world" where
  "reload env sw =
     (case sw of (s, w) \<Rightarrow>
        (case fs_stat env Passwd w of
           (Inl err, w1) \<Rightarrow> (Some err, s, w1)
         | (Inr stats_mtime, w1) \<Rightarrow>
             if strict_eq (lastTime s) stats_mtime then (None, s, w1)
             else
               let s1 = s\<lparr>lastTime := Some stats_mtime\<rparr>
               in (case fs_readFile env Passwd w1 of
                     (Inl err, w2) \<Rightarrow> (Some err, s1, w2)
                   | (Inr buffer, w2) \<Rightarrow>
                       (None, s1\<lparr>users := object_assign (users s1) (parseHTPasswd buffer)\<rparr>, w2))))"

definition reloadGroups :: "io \<Rightarrow> htpasswd \<times> world \<Rightarrow> js_error option \<times> htpasswd \<times> world" where
  "reloadGroups env sw =
     (case sw of (s, w) \<Rightarrow>
        (case fs_stat env Group w of
           (Inl err, w1) \<Rightarrow> (Some err, s, w1)
         | (Inr stats_mtime, w1) \<Rightarrow>
             if strict_eq (lastTimeGroup s) stats_mtime then (None, s, w1)
             else
               let s1 = s\<lparr>lastTimeGroup := Some stats_mtime\<rparr>
               in (case fs_readFile env Group w1 of
                     (Inl err, w2) \<Rightarrow> (Some err, s1, w2)
                   | (Inr buffer, w2) \<Rightarrow>
                       (None, s1\<lparr>groups := object_assign (groups s1) (parseHTgroup buffer)\<rparr>, w2))))"

text \<open>
  \<open>adduser\<close>. \<open>adduser_cb\<close> is the inner callback \<open>cb\<close>, which unlocks first when
  \<open>locked\<close> is set and then calls \<open>realCb(err, !err)\<close>; \<open>adduser_locked\<close> is the body of
  the callback given to \<open>lockAndRead\<close>, from \<open>let body = ...\<close> on. Neither call of
  \<open>sanityCheck\<close> stands in a \<open>try\<close>: what it throws leaves \<open>adduser\<close>, or the callback
  given to \<open>lockAndRead\<close>, with nothing further done. Only the call of
  \<open>addUserToHTPasswd\<close> is guarded.
\<close>

definition adduser_cb :: "io \<Rightarrow> bool \<Rightarrow> js_error option \<Rightarrow> world \<Rightarrow> world" where
  "adduser_cb env locked err w =
     (if locked then emit (RealCb err (err = None)) (snd (unlockFile env Passwd w))
      else emit (RealCb err (err = None)) w)"

definition adduser_locked ::
  "crypto \<Rightarrow> io \<Rightarrow> string \<Rightarrow> string \<Rightarrow> bool \<Rightarrow> string \<Rightarrow> htpasswd \<times> world \<Rightarrow> htpasswd \<times> world"
where
  "adduser_locked c env user password locked body sw =
     (case sw of (s, w) \<Rightarrow>
        let s1 = s\<lparr>users := parseHTPasswd body\<rparr>
        in (case sanityCheck user password (verifyPassword c) (users s1) (maxUsers s1) of
              Inl thrown \<Rightarrow> (s1, emit (Uncaught thrown) w)
            | Inr (Some sanity) \<Rightarrow> (s1, adduser_cb env locked (Some sanity) w)
            | Inr None \<Rightarrow>
                (case addUserToHTPasswd c (now env) body user password of
                   Inl err \<Rightarrow> (s1, adduser_cb env locked (Some err) w)
                 | Inr body' \<Rightarrow>
                     (case fs_writeFile env Passwd body' w of
                        (Some err, w1) \<Rightarrow> (s1, adduser_cb env locked (Some err) w1)
                      | (None, w1) \<Rightarrow>
                          (case reload env (s1, w1) of
                             (_, s2, w2) \<Rightarrow> (s2, adduser_cb env locked None w2))))))"

definition adduser ::
  "crypto \<Rightarrow> io \<Rightarrow> string \<Rightarrow> string \<Rightarrow> htpasswd \<times> world \<Rightarrow> htpasswd \<times> world"
where
  "adduser c env user password sw =
     (case sw of (s, w) \<Rightarrow>
        (case sanityCheck user password (verifyPassword c) (users s) (maxUsers s) of
           Inl thrown \<Rightarrow> (s, emit (Uncaught thrown) w)
         | Inr (Some sanity) \<Rightarrow> (s, emit (RealCb (Some sanity) False) w)
         | Inr None \<Rightarrow>
             (case lockAndRead env Passwd w of
                (Inl err, w1) \<Rightarrow>
                  if err \<noteq> FsError ''ENOENT'' then (s, adduser_cb env False (Some err) w1)
                  else adduser_locked c env user password False [] (s, w1)
              | (Inr res, w1) \<Rightarrow> adduser_locked c env user password True res (s, w1))))"

text \<open>
  \<open>addusergroups\<close>. Its \<open>groups\<close> argument is a string, an array, or something else; an
  array entry that is not a string is \<open>None\<close>. With no group to add, the function returns
  without calling back.
\<close>

datatype groups_arg = NoGroups | GroupString string | GroupArray "string option list" | OtherGroups

definition sanityCheckGroups :: "groups_arg \<Rightarrow> string list" where
  "sanityCheckGroups groups_in =
     (case groups_in of
        NoGroups \<Rightarrow> []
      | GroupString s \<Rightarrow> if s = [] then [] else str_split (CHR '' '') s
      | GroupArray entries \<Rightarrow>
          concat (map (\<lambda>entry. case entry of Some g \<Rightarrow> [g] | None \<Rightarrow> []) entries)
      | OtherGroups \<Rightarrow> [])"

definition addusergroups_cb :: "io \<Rightarrow> bool \<Rightarrow> js_error option \<Rightarrow> world \<Rightarrow> world" where
  "addusergroups_cb env held err w =
     (if held then emit (RealCb err (err = None)) (snd (unlockFile env Group w))
      else emit (RealCb err (err = None)) w)"

definition addusergroups_locked ::
  "io \<Rightarrow> string \<Rightarrow> string list \<Rightarrow> bool \<Rightarrow> string \<Rightarrow> htpasswd \<times> world \<Rightarrow> htpasswd \<times> world"
where
  "addusergroups_locked env user groupsArr held body sw =
     (case sw of (s, w) \<Rightarrow>
        (case addUserToHTGroup (parseHTgroup body) user groupsArr of
           (groupsObj, Inl err) \<Rightarrow>
             (s\<lparr>groups := groupsObj\<rparr>, addusergroups_cb env held (Some err) w)
         | (groupsObj, Inr groupsModified) \<Rightarrow>
             let s1 = s\<lparr>groups := groupsObj\<rparr>
             in if groupsModified
                then (case fs_writeFile env Group (serializeHTgroups groupsObj) w of
                        (Some err, w1) \<Rightarrow> (s1, addusergroups_cb env held (Some err) w1)
                      | (None, w1) \<Rightarrow>
                          (case reloadGroups env (s1, w1) of
                             (_, s2, w2) \<Rightarrow> (s2, addusergroups_cb env held None w2)))
                else (s1, addusergroups_cb env held None w)))"

definition addusergroups ::
  "io \<Rightarrow> string \<Rightarrow> groups_arg \<Rightarrow> htpasswd \<times> world \<Rightarrow> htpasswd \<times> world"
where
  "addusergroups env user groups_in sw =
     (case sw of (s, w) \<Rightarrow>
        let groupsArr = sanityCheckGroups groups_in
        in if length groupsArr = 0 then (s, w)
           else (case lockAndRead env Group w of
                   (Inl err, w1) \<Rightarrow>
                     if err \<noteq> FsError ''ENOENT''
                     then (s, addusergroups_cb env False (Some err) w1)
                     else addusergroups_locked env user groupsArr False [] (s, w1)
                 | (Inr res, w1) \<Rightarrow> addusergroups_locked env user groupsArr True res (s, w1)))"

text \<open>Which events are calls that write, stat or read a file, and which are writes.\<close>

fun is_file_access :: "event \<Rightarrow> bool" where
  "is_file_access (WriteFile p body) = True"
| "is_file_access (Stat p) = True"
| "is_file_access (ReadFile p) = True"
| "is_file_access _ = False"

fun is_write :: "event \<Rightarrow> bool" where
  "is_write (WriteFile p body) = True"
| "is_write _ = False"

section \<open>Concrete instances\<close>

text \<open>
  The constructor, as far as the fields above go: \<open>max_users\<close> is the configured value,
  \<open>None\<close> when the configuration has none; \<open>0\<close> is falsy.
\<close>

definition new_HTPasswd :: "int option \<Rightarrow> htpasswd" where
  "new_HTPasswd max_users =
     \<lparr>users = [], groups = [],
      maxUsers = (case max_users of
                    None \<Rightarrow> Infinity
                  | Some n \<Rightarrow> if n \<noteq> 0 then Num n else Infinity),
      lastTime = None, lastTimeGroup = None\<rparr>"

text \<open>
  For the statements that are evaluated at a concrete input: a file layer in which no call
  fails, a pair of files with given contents, modified at time \<open>1000\<close> and unlocked, and
  a stand-in for the hash libraries. The stand-in is not a hash: it only has the shape of
  one (a salt taken from the stored hash, then the password), so that a stored password
  verifies. Its \<open>bcrypt_compareSync\<close> does what \<open>bcryptjs\<close> does before it hashes: it
  answers false on a hash that is not 60 characters long, and throws on one whose
  number of rounds is not between 4 and 31. Every theorem below that mentions a
  \<open>crypto\<close> holds for all of them. \<open>bad_bcrypt_hash\<close> is a hash of 60 characters
  with 99 rounds.
\<close>

definition quiet_io :: io where
  "quiet_io =
     \<lparr>lock_fault = None, unlock_fault = None, write_fault = None, stat_fault = None,
      read_fault = None, now = ''2018-01-14T11:17:40.712Z'', write_time = 2000\<rparr>"

definition disk :: "string option \<Rightarrow> string option \<Rightarrow> world" where
  "disk passwd_text group_text =
     \<lparr>passwd_file = \<lparr>content = passwd_text, mtime = 1000, lock_held = False\<rparr>,
      group_file = \<lparr>content = group_text, mtime = 1000, lock_held = False\<rparr>,
      next_ref = 1, events = []\<rparr>"

definition toy_crypto :: crypto where
  "toy_crypto =
     \<lparr>bcrypt_compareSync =
        (\<lambda>passwd hash.
           if length hash \<noteq> 60 then Inr False
           else if digits_value (take 2 (drop 4 hash)) < 4
                   \<or> 31 < digits_value (take 2 (drop 4 hash))
           then Inl (JsError (''Illegal number of rounds (4-31): '' @ take 2 (drop 4 hash)))
           else Inr (drop 29 hash = take 31 (rev passwd @ replicate 31 (CHR ''.'')))),
      sha1_base64 = (\<lambda>passwd. rev passwd),
      md5 = (\<lambda>passwd salt. Inr (''$apr1$'' @ passwd)),
      crypt3 = (\<lambda>passwd salt. Inr (take 2 salt @ ''.'' @ passwd)),
      crypt3_fresh = (\<lambda>passwd. ''ab.'' @ passwd),
      crypt3_loaded = True\<rparr>"

definition bad_bcrypt_hash :: string where
  "bad_bcrypt_hash = ''$2a$99$abcdefghijklmnopqrstuvwxyzabcdefghijklmnopqrstuvwxyzA''"

section \<open>Facts about strings and objects\<close>

lemma str_split_not_Nil [simp]: "str_split sep s \<noteq> []"
  by (induction s) (auto split: list.splits)

lemma str_split_no_sep: "sep \<notin> set s \<Longrightarrow> str_split sep s = [s]"
  by (induction s) auto

lemma str_split_append: "sep \<notin> set a \<Longrightarrow> str_split sep (a @ sep # b) = a # str_split sep b"
  by (induction a) auto

lemma indexOf_from_range: "indexOf_from i s pat = - 1 \<or> int i \<le> indexOf_from i s pat"
proof (induction s arbitrary: i)
  case Nil
  show ?case by simp
next
  case (Cons c s)
  from Cons.IH [of "Suc i"] show ?case by auto
qed

lemma indexOf_from_start: "indexOf_from i s pat = int i \<longleftrightarrow> prefix pat s"
proof (cases s)
  case Nil
  then show ?thesis by auto
next
  case (Cons c t)
  from indexOf_from_range [of "Suc i" t pat] Cons show ?thesis by auto
qed

lemma str_indexOf_0: "str_indexOf s pat = 0 \<longleftrightarrow> prefix pat s"
  using indexOf_from_start [of 0 s pat] by (simp add: str_indexOf_def)

lemma map_of_obj_replace:
  "map_of (obj_replace k v obj) x =
     (if x = k \<and> k \<in> set (map fst obj) then Some v else map_of obj x)"
  by (induction obj) (simp_all, force)

lemma keys_obj_replace: "map fst (obj_replace k v obj) = map fst obj"
  by (induction obj) auto

lemma keys_obj_insert: "set (map fst (obj_insert k v obj)) = insert k (set (map fst obj))"
  by (induction k v obj rule: obj_insert.induct) (simp_all add: insert_commute del: set_map)

lemma map_of_obj_insert:
  "k \<notin> set (map fst obj) \<Longrightarrow>
     map_of (obj_insert k v obj) x = (if x = k then Some v else map_of obj x)"
  by (induction obj) (simp_all del: set_map, force)

lemma distinct_obj_insert:
  "k \<notin> set (map fst obj) \<Longrightarrow> distinct (map fst obj) \<Longrightarrow>
     distinct (map fst (obj_insert k v obj))"
  by (induction k v obj rule: obj_insert.induct) (auto simp: keys_obj_insert simp del: set_map)

text \<open>
  Assignment to a key other than \<open>__proto__\<close> binds the key and leaves the other keys as
  they are; no key is ever removed, and the keys stay distinct.
\<close>

lemma obj_get_obj_set:
  "obj_get (obj_set k v obj) k' =
     (if k = ''__proto__'' then obj_get obj k' else if k' = k then Some v else obj_get obj k')"
  by (simp add: obj_get_def obj_set_def object_keys_def map_of_obj_replace map_of_obj_insert
      del: set_map)

lemma keys_obj_set:
  "set (object_keys (obj_set k v obj)) =
     (if k = ''__proto__'' then set (object_keys obj) else insert k (set (object_keys obj)))"
  by (auto simp: obj_set_def object_keys_def keys_obj_replace keys_obj_insert simp del: set_map)

lemma distinct_obj_set:
  "distinct (object_keys obj) \<Longrightarrow> distinct (object_keys (obj_set k v obj))"
  by (simp add: obj_set_def object_keys_def keys_obj_replace distinct_obj_insert del: set_map)

section \<open>Group membership\<close>

lemma getGroupsForUser_loop:
  "foldl (\<lambda>userGroups (groupName, groupUsers).
            if arr_includes groupUsers user then userGroups @ [groupName] else userGroups)
     acc groupsObj
   = acc @ map fst (filter (\<lambda>(groupName, groupUsers). user \<in> set groupUsers) groupsObj)"
  by (induction groupsObj arbitrary: acc) (auto simp: arr_includes_def)

text \<open>
  Claim C6. For every group map and every user, \<open>getGroupsForUser\<close> returns a list that
  is not empty, whose first element is the user, followed by exactly the names of the
  groups whose member lists contain the user, in the order in which the map enumerates
  its groups.
\<close>

theorem getGroupsForUser_self_then_groups:
  "getGroupsForUser groupsObj user \<noteq> []
   \<and> hd (getGroupsForUser groupsObj user) = user
   \<and> tl (getGroupsForUser groupsObj user)
       = map fst (filter (\<lambda>(groupName, groupUsers). user \<in> set groupUsers) groupsObj)"
  by (simp add: getGroupsForUser_def getGroupsForUser_loop)

text \<open>
  Claim C2. Asked to add a user to a group that has no entry in the map,
  \<open>addUserToHTGroup\<close> does not create the group: reading the missing entry yields
  \<open>undefined\<close>, and the call of \<open>includes\<close> on it throws. Here the map is empty, the
  user is \<open>bob\<close> and the requested group is \<open>devs\<close>. So \<open>addusergroups\<close>, which
  reads a missing group file as empty in order to create it, reports the \<open>TypeError\<close>
  and writes nothing.
\<close>

theorem addUserToHTGroup_missing_group_throws:
  "addUserToHTGroup [] ''bob'' [''devs''] = ([], Inl TypeError)
   \<and> events (snd (addusergroups quiet_io ''bob'' (GroupArray [Some ''devs''])
        (new_HTPasswd None, disk None None)))
       = [LockAndRead Group, RealCb (Some TypeError) False]"
  by (simp add: addUserToHTGroup_def encodeURIComponent_def uri_unreserved_def obj_get_def
      addusergroups_def addusergroups_locked_def addusergroups_cb_def sanityCheckGroups_def
      lockAndRead_def emit_def get_file_def disk_def quiet_io_def parseHTgroup_def
      parseHTgroup_line_def str_split_limit_def obj_set_def object_keys_def Let_def)

section \<open>The group file format\<close>

text \<open>
  Claim C7. The serialized form of \<open>{g: ["a", "b"]}\<close> is \<open>g: a b\<close>, with a space after
  the colon. Parsing splits the field after the colon on single spaces, so the space that
  follows the colon yields an empty first member: the round trip returns
  \<open>{g: ["", "a", "b"]}\<close>, not the map it started from. Serializing that map puts two
  spaces after the colon, so every further round adds one more empty member.
\<close>

theorem parseHTgroup_serializeHTgroups_example:
  "serializeHTgroups [(''g'', [''a'', ''b''])] = ''g: a b''
   \<and> parseHTgroup (serializeHTgroups [(''g'', [''a'', ''b''])]) = [(''g'', ['''', ''a'', ''b''])]
   \<and> serializeHTgroups [(''g'', ['''', ''a'', ''b''])] = ''g:  a b''
   \<and> parseHTgroup ''g:  a b'' = [(''g'', ['''', '''', ''a'', ''b''])]"
  by (simp add: parseHTgroup_def serializeHTgroups_def parseHTgroup_line_def
      str_split_limit_def obj_set_def object_keys_def)

lemma parseHTgroup_line_colonless:
  "CHR '':'' \<notin> set line \<Longrightarrow> parseHTgroup_line result line = obj_set line [] result"
  by (simp add: parseHTgroup_line_def str_split_limit_def str_split_no_sep)

lemma parseHTPasswd_line_colonless:
  "CHR '':'' \<notin> set line \<Longrightarrow> parseHTPasswd_line result line = result"
  by (simp add: parseHTPasswd_line_def str_split_limit_def str_split_no_sep)

lemma parseHTgroup_line_name:
  "\<exists>members. parseHTgroup_line result line
      = obj_set (hd (str_split (CHR '':'') line)) members result"
proof -
  have "str_split_limit (CHR '':'') 2 line ! 0 = hd (str_split (CHR '':'') line)"
    by (cases "str_split (CHR '':'') line") (simp_all add: str_split_limit_def)
  then show ?thesis
    by (auto simp: parseHTgroup_line_def Let_def)
qed

lemma parseHTgroup_keys_grow:
  "k \<in> set (object_keys result) \<Longrightarrow>
     k \<in> set (object_keys (foldl parseHTgroup_line result ls))"
proof (induction ls arbitrary: result)
  case Nil
  then show ?case by simp
next
  case (Cons l ls)
  obtain members where
    "parseHTgroup_line result l = obj_set (hd (str_split (CHR '':'') l)) members result"
    using parseHTgroup_line_name by blast
  with Cons.prems have "k \<in> set (object_keys (parseHTgroup_line result l))"
    by (simp add: keys_obj_set)
  then show ?case using Cons.IH by simp
qed

lemma parseHTgroup_other_names:
  "list_all (\<lambda>l. hd (str_split (CHR '':'') l) \<noteq> k) ls \<Longrightarrow>
     obj_get (foldl parseHTgroup_line result ls) k = obj_get result k"
proof (induction ls arbitrary: result)
  case Nil
  then show ?case by simp
next
  case (Cons l ls)
  obtain members where
    "parseHTgroup_line result l = obj_set (hd (str_split (CHR '':'') l)) members result"
    using parseHTgroup_line_name by blast
  with Cons.prems have "obj_get (parseHTgroup_line result l) k = obj_get result k"
    by (auto simp: obj_get_obj_set)
  with Cons show ?case by simp
qed

text \<open>
  Claim C10, as amended. Let \<open>line\<close> be a line of the input that contains no colon and
  is not \<open>__proto__\<close>. Reading it assigns the empty member list to the key \<open>line\<close>, so
  the line is a group name of the result; a later line with the same group name assigns
  again, so the member list in the result is empty when no later line has this group
  name. \<open>parseHTgroup("")\<close> is \<open>{"": []}\<close>. \<open>parseHTPasswd\<close> leaves its result as it is on
  a line without a colon, and \<open>parseHTPasswd("")\<close> is the empty map.
\<close>

theorem parseHTgroup_keeps_colonless_line:
  assumes lines: "str_split (CHR 0x0A) input = before @ line # after"
    and colonless: "CHR '':'' \<notin> set line"
    and name: "line \<noteq> ''__proto__''"
  shows "line \<in> set (object_keys (parseHTgroup input))
     \<and> (list_all (\<lambda>l. hd (str_split (CHR '':'') l) \<noteq> line) after
          \<longrightarrow> obj_get (parseHTgroup input) line = Some [])
     \<and> parseHTgroup_line result line = obj_set line [] result
     \<and> parseHTPasswd_line result' line = result'
     \<and> parseHTgroup [] = [([], [])]
     \<and> parseHTPasswd [] = []"
proof -
  let ?r = "foldl parseHTgroup_line [] before"
  have whole: "parseHTgroup input = foldl parseHTgroup_line (obj_set line [] ?r) after"
    by (simp add: parseHTgroup_def lines parseHTgroup_line_colonless [OF colonless])
  have "line \<in> set (object_keys (obj_set line [] ?r))"
    using name by (simp add: keys_obj_set)
  then have key: "line \<in> set (object_keys (parseHTgroup input))"
    unfolding whole by (rule parseHTgroup_keys_grow)
  have bound: "obj_get (obj_set line [] ?r) line = Some []"
    using name by (simp add: obj_get_obj_set)
  have last: "list_all (\<lambda>l. hd (str_split (CHR '':'') l) \<noteq> line) after
      \<Longrightarrow> obj_get (parseHTgroup input) line = Some []"
    unfolding whole using bound by (simp add: parseHTgroup_other_names)
  have empty: "parseHTgroup [] = [([], [])]" "parseHTPasswd [] = []"
    by (simp_all add: parseHTgroup_def parseHTPasswd_def parseHTgroup_line_def
        parseHTPasswd_line_def str_split_limit_def obj_set_def object_keys_def)
  show ?thesis
    using key last empty
    by (simp add: parseHTgroup_line_colonless [OF colonless]
        parseHTPasswd_line_colonless [OF colonless])
qed

text \<open>
  The theorem at the input \<open>admins: bob\<close>, \<open>guests\<close>, and an empty last line: the line
  \<open>guests\<close> is a group of the result, with no members.
\<close>

theorem parseHTgroup_keeps_colonless_line_witness:
  "str_split (CHR 0x0A) ''admins: bob\<newline>guests\<newline>'' = [''admins: bob''] @ ''guests'' # ['''']
   \<and> ''guests'' \<in> set (object_keys (parseHTgroup ''admins: bob\<newline>guests\<newline>''))
   \<and> obj_get (parseHTgroup ''admins: bob\<newline>guests\<newline>'') ''guests'' = Some []"
proof -
  have lines: "str_split (CHR 0x0A) ''admins: bob\<newline>guests\<newline>''
      = [''admins: bob''] @ ''guests'' # ['''']"
    by simp
  have colonless: "CHR '':'' \<notin> set ''guests''" by simp
  have name: "''guests'' \<noteq> ''__proto__''" by simp
  have later: "list_all (\<lambda>l. hd (str_split (CHR '':'') l) \<noteq> ''guests'') ['''']" by simp
  from parseHTgroup_keeps_colonless_line [OF lines colonless name] later lines
  show ?thesis by blast
qed

text \<open>
  The claim as it was stated fails on the two lines \<open>g\<close> and \<open>g:a\<close>: the first has no
  colon, and the result binds \<open>g\<close> to the member list of the second.
\<close>

theorem parseHTgroup_later_line_overrides:
  "str_split (CHR 0x0A) ''g\<newline>g:a'' = [''g'', ''g:a'']
   \<and> CHR '':'' \<notin> set ''g''
   \<and> obj_get (parseHTgroup ''g\<newline>g:a'') ''g'' = Some [''a'']"
  by (simp add: parseHTgroup_def parseHTgroup_line_def str_split_limit_def obj_set_def
      object_keys_def obj_get_def)

section \<open>The password verifier\<close>

lemma match_bcrypt_prefix:
  "match_bcrypt hash \<longleftrightarrow> prefix ''$2a$'' hash \<or> prefix ''$2b$'' hash \<or> prefix ''$2y$'' hash"
  by (auto simp: match_bcrypt_def split: list.splits)

text \<open>
  Claim C3. \<open>verifyPassword\<close> is the verifier of the specification: the scheme is read
  off the prefix of the stored hash, bcrypt markers first, then \<open>{PLAIN}\<close>, then \<open>{SHA}\<close>,
  and anything else is a legacy hash, which verifies when the MD5 crypt or else the DES
  crypt of the password, salted from the stored hash, equals the stored hash. What a
  library call throws is thrown on both sides. The password
  \<open>secret\<close> verifies against \<open>{SHA}\<close> followed by its encoded digest.
\<close>

theorem verifyPassword_by_scheme:
  "verifyPassword c passwd (Str hash) = verify_by_scheme c passwd hash
   \<and> verifyPassword c ''secret'' (Str (''{SHA}'' @ sha1_base64 c ''secret'')) = Inr True"
proof -
  have "verifyPassword c p (Str h) = verify_by_scheme c p h" for p h
    unfolding verifyPassword_def verify_by_scheme_def scheme_of_def
    by (simp add: str_indexOf_0 match_bcrypt_prefix str_substr_def eval_nat_numeral
        del: Cons_prefix_Cons)
  then show ?thesis
    by (simp add: verify_by_scheme_def scheme_of_def)
qed

section \<open>The user file format\<close>

lemma parseHTPasswd_one_record:
  assumes "CHR '':'' \<notin> set user" "CHR 0x0A \<notin> set user" "user \<noteq> ''__proto__''"
    and "CHR '':'' \<notin> set hash" "CHR 0x0A \<notin> set hash"
    and "CHR 0x0A \<notin> set comment"
  shows "parseHTPasswd (user @ CHR '':'' # hash @ CHR '':'' # comment @ [CHR 0x0A])
           = [(user, hash)]"
proof -
  define line where "line = user @ CHR '':'' # hash @ CHR '':'' # comment"
  have "CHR 0x0A \<notin> set line" using assms by (simp add: line_def)
  then have "str_split (CHR 0x0A) (line @ CHR 0x0A # []) = line # str_split (CHR 0x0A) []"
    by (rule str_split_append)
  then have lines: "str_split (CHR 0x0A) (line @ [CHR 0x0A]) = [line, []]"
    by simp
  have "str_split (CHR '':'') line = user # hash # str_split (CHR '':'') comment"
    using assms by (simp add: line_def str_split_append)
  then have args: "str_split_limit (CHR '':'') 3 line
      = user # hash # take 1 (str_split (CHR '':'') comment)"
    by (simp add: str_split_limit_def)
  have "parseHTPasswd_line [] line = [(user, hash)]"
    using assms(3) by (simp add: parseHTPasswd_line_def args Let_def obj_set_def object_keys_def)
  moreover have "parseHTPasswd_line [(user, hash)] [] = [(user, hash)]"
    by (simp add: parseHTPasswd_line_def str_split_limit_def)
  ultimately have "parseHTPasswd (line @ [CHR 0x0A]) = [(user, hash)]"
    by (simp add: parseHTPasswd_def lines)
  then show ?thesis by (simp add: line_def)
qed

text \<open>
  Claim C8, as amended. \<open>addUserToHTPasswd\<close> takes a password, not a hash: it stores
  \<open>crypt3\<close> of its third argument, or \<open>{SHA}\<close> and the encoded SHA-1 digest when
  \<open>crypt3\<close> is not loaded. When that stored hash has no colon and no newline in it (and the
  time stamp no newline), parsing the body made from the empty body, \<open>alice\<close> and
  \<open>hash\<close> yields the map that binds \<open>alice\<close> to the stored hash, and nothing else.
\<close>

theorem parseHTPasswd_addUserToHTPasswd:
  assumes "stored = (if crypt3_loaded c then crypt3_fresh c ''hash''
                     else ''{SHA}'' @ sha1_base64 c ''hash'')"
    and "CHR '':'' \<notin> set stored" "CHR 0x0A \<notin> set stored" "CHR 0x0A \<notin> set stamp"
  shows "\<exists>body. addUserToHTPasswd c stamp [] ''alice'' ''hash'' = Inr body
           \<and> parseHTPasswd body = [(''alice'', stored)]"
proof -
  have safe: "encodeURIComponent ''alice'' = ''alice''"
    by (simp add: encodeURIComponent_def uri_unreserved_def)
  have "addUserToHTPasswd c stamp [] ''alice'' ''hash''
      = Inr (''alice'' @ CHR '':'' # stored @ CHR '':'' # (''autocreated '' @ stamp) @ [CHR 0x0A])"
    using assms(1) by (simp add: addUserToHTPasswd_def safe)
  moreover have "parseHTPasswd
       (''alice'' @ CHR '':'' # stored @ CHR '':'' # (''autocreated '' @ stamp) @ [CHR 0x0A])
      = [(''alice'', stored)]"
    using assms by (intro parseHTPasswd_one_record) simp_all
  ultimately show ?thesis by blast
qed

text \<open>The theorem with the stand-in for the hash libraries, whose \<open>crypt3\<close> gives \<open>ab.hash\<close>.\<close>

theorem parseHTPasswd_addUserToHTPasswd_witness:
  "CHR '':'' \<notin> set ''ab.hash'' \<and> CHR 0x0A \<notin> set ''ab.hash''
   \<and> CHR 0x0A \<notin> set (now quiet_io)
   \<and> (\<exists>body. addUserToHTPasswd toy_crypto (now quiet_io) [] ''alice'' ''hash'' = Inr body
          \<and> parseHTPasswd body = [(''alice'', ''ab.hash'')])"
proof -
  have stored: "''ab.hash'' = (if crypt3_loaded toy_crypto then crypt3_fresh toy_crypto ''hash''
                     else ''{SHA}'' @ sha1_base64 toy_crypto ''hash'')"
    by (simp add: toy_crypto_def)
  have colon: "CHR '':'' \<notin> set ''ab.hash''" and newline: "CHR 0x0A \<notin> set ''ab.hash''"
    by simp_all
  have stamp: "CHR 0x0A \<notin> set (now quiet_io)"
    by (simp add: quiet_io_def)
  from parseHTPasswd_addUserToHTPasswd [OF stored colon newline stamp] colon newline stamp
  show ?thesis by blast
qed

text \<open>
  The claim as it was stated fails there: the body is the line below, and \<open>alice\<close> is
  bound to \<open>ab.hash\<close>, not to \<open>hash\<close>.
\<close>

theorem parseHTPasswd_addUserToHTPasswd_stores_hash:
  "addUserToHTPasswd toy_crypto (now quiet_io) [] ''alice'' ''hash''
     = Inr ''alice:ab.hash:autocreated 2018-01-14T11:17:40.712Z\<newline>''
   \<and> obj_get (parseHTPasswd ''alice:ab.hash:autocreated 2018-01-14T11:17:40.712Z\<newline>'') ''alice''
       = Some ''ab.hash''
   \<and> obj_get (parseHTPasswd ''alice:ab.hash:autocreated 2018-01-14T11:17:40.712Z\<newline>'') ''alice''
       \<noteq> Some ''hash''"
  by (simp add: addUserToHTPasswd_def encodeURIComponent_def uri_unreserved_def toy_crypto_def
      quiet_io_def parseHTPasswd_def parseHTPasswd_line_def str_split_limit_def obj_set_def
      object_keys_def obj_get_def)

section \<open>Adding a user\<close>

lemmas io_defs = lockAndRead_def unlockFile_def fs_writeFile_def fs_stat_def fs_readFile_def
  emit_def get_file_def put_file_def

lemma sanityCheck_bound:
  assumes "obj_get us user = Some hash" and "hash \<noteq> []" and "user \<noteq> []"
  shows "sanityCheck user password verifyFn us m =
     (if password = [] then Inr (Some (HttpError 400 ''username and password is required''))
      else (case verifyFn password (Str hash) of
              Inl thrown \<Rightarrow> Inl thrown
            | Inr auth \<Rightarrow>
                Inr (Some (if auth then HttpError 409 ''username is already registered''
                           else HttpError 401 ''unauthorized access''))))"
  using assms by (simp add: sanityCheck_def obj_read_def split: sum.splits)

text \<open>
  Claim C1, as amended. Let the user name be bound, in the user map of the plugin, to a
  hash that is not empty, and let the user name not be empty. Then \<open>adduser\<close> never
  succeeds, whatever the password, and does nothing but one of three things: it reports
  status 400 for the empty password, before any comparison; otherwise, when the verifier
  returns, it reports status 409 when the password verifies against the stored hash and
  401 when it does not; and when the verifier throws, the exception leaves \<open>adduser\<close>
  and no callback is made. There is no lock, no read and no write, and the plugin is as
  before.
\<close>

theorem adduser_registered_user:
  assumes "obj_get (users s) user = Some hash" and "hash \<noteq> []" and "user \<noteq> []"
  shows "adduser c env user password (s, w) =
     (s, emit (if password = []
               then RealCb (Some (HttpError 400 ''username and password is required'')) False
               else (case verifyPassword c password (Str hash) of
                       Inl thrown \<Rightarrow> Uncaught thrown
                     | Inr auth \<Rightarrow>
                         RealCb (Some (if auth
                                       then HttpError 409 ''username is already registered''
                                       else HttpError 401 ''unauthorized access'')) False)) w)"
  using assms
  by (simp add: adduser_def sanityCheck_bound split: sum.splits)

text \<open>
  The theorem for \<open>bob\<close>, registered with the hash \<open>{PLAIN}secret\<close>, with the right and
  with a wrong password.
\<close>

theorem adduser_registered_user_witness:
  "obj_get (users ((new_HTPasswd None)\<lparr>users := [(''bob'', ''{PLAIN}secret'')]\<rparr>)) ''bob''
     = Some ''{PLAIN}secret''
   \<and> events (snd (adduser toy_crypto quiet_io ''bob'' ''secret''
        ((new_HTPasswd None)\<lparr>users := [(''bob'', ''{PLAIN}secret'')]\<rparr>, disk None None)))
       = [RealCb (Some (HttpError 409 ''username is already registered'')) False]
   \<and> events (snd (adduser toy_crypto quiet_io ''bob'' ''guess''
        ((new_HTPasswd None)\<lparr>users := [(''bob'', ''{PLAIN}secret'')]\<rparr>, disk None None)))
       = [RealCb (Some (HttpError 401 ''unauthorized access'')) False]"
proof -
  let ?s = "(new_HTPasswd None)\<lparr>users := [(''bob'', ''{PLAIN}secret'')]\<rparr>"
  have bound: "obj_get (users ?s) ''bob'' = Some ''{PLAIN}secret''"
    by (simp add: obj_get_def)
  have hash: "''{PLAIN}secret'' \<noteq> []" and user: "''bob'' \<noteq> []"
    by simp_all
  have right: "verifyPassword toy_crypto ''secret'' (Str ''{PLAIN}secret'') = Inr True"
    and wrong: "verifyPassword toy_crypto ''guess'' (Str ''{PLAIN}secret'') = Inr False"
    by (simp_all add: verifyPassword_def match_bcrypt_def str_indexOf_def str_substr_def)
  from adduser_registered_user [OF bound hash user, of toy_crypto quiet_io "''secret''" "disk None None"]
    adduser_registered_user [OF bound hash user, of toy_crypto quiet_io "''guess''" "disk None None"]
    bound right wrong
  show ?thesis
    by (simp add: emit_def disk_def)
qed

text \<open>
  The claim as it was stated fails for the empty password: \<open>bob\<close> is registered, the
  empty password does not verify, and the error is neither 409 nor 401.
\<close>

theorem adduser_registered_user_empty_password:
  "obj_get [(''bob'', ''{PLAIN}secret'')] ''bob'' = Some ''{PLAIN}secret''
   \<and> verifyPassword toy_crypto [] (Str ''{PLAIN}secret'') = Inr False
   \<and> events (snd (adduser toy_crypto quiet_io ''bob'' []
        ((new_HTPasswd None)\<lparr>users := [(''bob'', ''{PLAIN}secret'')]\<rparr>, disk None None)))
       = [RealCb (Some (HttpError 400 ''username and password is required'')) False]"
  by (simp add: adduser_def sanityCheck_def emit_def disk_def obj_get_def
      verifyPassword_def match_bcrypt_def str_indexOf_def str_substr_def)

text \<open>
  The verifier of \<open>bcryptjs\<close> throws on a stored hash of 60 characters with 99 rounds: with
  \<open>bob\<close> bound to such a hash, \<open>adduser\<close> throws and reports nothing.
\<close>

lemma adduser_registered_user_verifier_throws:
  "events (snd (adduser toy_crypto quiet_io ''bob'' ''pw''
      ((new_HTPasswd None)\<lparr>users := [(''bob'', bad_bcrypt_hash)]\<rparr>, disk None None)))
   = [Uncaught (JsError ''Illegal number of rounds (4-31): 99'')]"
  by (simp add: adduser_def sanityCheck_def obj_read_def emit_def disk_def obj_get_def
      verifyPassword_def match_bcrypt_def bad_bcrypt_hash_def toy_crypto_def digits_value_def)

text \<open>
  A user name bound to the empty hash is outside the theorem: the test \<open>if (hash)\<close> takes
  the empty string for a missing entry. With the line \<open>bob::x\<close> in the file, \<open>bob\<close> is
  registered a second time.
\<close>

lemma adduser_empty_hash_registers_again:
  "obj_get (parseHTPasswd ''bob::x'') ''bob'' = Some []
   \<and> snd (adduser toy_crypto quiet_io ''bob'' ''pw'' (new_HTPasswd None, disk (Some ''bob::x'') None))
      = \<lparr>passwd_file =
           \<lparr>content = Some ''bob::x\<newline>bob:ab.pw:autocreated 2018-01-14T11:17:40.712Z\<newline>'',
            mtime = 2000, lock_held = False\<rparr>,
         group_file = \<lparr>content = None, mtime = 1000, lock_held = False\<rparr>,
         next_ref = 2,
         events =
           [LockAndRead Passwd,
            WriteFile Passwd ''bob::x\<newline>bob:ab.pw:autocreated 2018-01-14T11:17:40.712Z\<newline>'',
            Stat Passwd, ReadFile Passwd, UnlockFile Passwd, RealCb None True]\<rparr>"
  by (simp add: adduser_def adduser_locked_def adduser_cb_def reload_def sanityCheck_def
      obj_read_def object_prototype_names_def
      addUserToHTPasswd_def encodeURIComponent_def uri_unreserved_def io_defs strict_eq_def
      new_HTPasswd_def disk_def quiet_io_def toy_crypto_def object_assign_def
      parseHTPasswd_def parseHTPasswd_line_def str_split_limit_def obj_set_def
      object_keys_def obj_get_def Let_def)

lemma events_adduser_cb:
  "events (adduser_cb env held err w) =
     events w @ (if held then [UnlockFile Passwd] else []) @ [RealCb err (err = None)]"
  by (simp add: adduser_cb_def io_defs Let_def split: option.splits)

lemma passwd_adduser_cb:
  "content (passwd_file (adduser_cb env held err w)) = content (passwd_file w)
   \<and> mtime (passwd_file (adduser_cb env held err w)) = mtime (passwd_file w)"
  by (simp add: adduser_cb_def io_defs Let_def split: option.splits)

lemma adduser_cb_unlocks:
  "unlock_fault env = None \<Longrightarrow> \<not> lock_held (passwd_file (adduser_cb env True err w))"
  by (simp add: adduser_cb_def io_defs Let_def)

lemma lockAndRead_effect:
  "events (snd (lockAndRead env Passwd w)) = events w @ [LockAndRead Passwd]
   \<and> content (passwd_file (snd (lockAndRead env Passwd w))) = content (passwd_file w)
   \<and> mtime (passwd_file (snd (lockAndRead env Passwd w))) = mtime (passwd_file w)"
  by (simp add: io_defs Let_def split: option.splits)

lemma lockAndRead_holds:
  "fst (lockAndRead env Passwd w) = Inr body \<Longrightarrow>
     lock_held (passwd_file (snd (lockAndRead env Passwd w)))"
  by (simp add: io_defs Let_def split: option.splits)

lemma fs_writeFile_effect:
  "events (snd (fs_writeFile env Passwd body w)) = events w @ [WriteFile Passwd body]
   \<and> fst (fs_writeFile env Passwd body w) = map_option FsError (write_fault env)"
  by (simp add: io_defs Let_def split: option.splits)

lemma reload_effect:
  "\<exists>mid. events (snd (snd (reload env (s, w)))) = events w @ mid \<and> list_all is_file_access mid
      \<and> passwd_file (snd (snd (reload env (s, w)))) = passwd_file w"
  by (auto simp: reload_def io_defs Let_def split: option.splits sum.splits prod.splits)

lemma adduser_locked_unsafe:
  assumes "user \<noteq> encodeURIComponent user"
  shows "snd (adduser_locked c env user password held body (s, w)) =
     (case sanityCheck user password (verifyPassword c) (parseHTPasswd body) (maxUsers s) of
        Inl thrown \<Rightarrow> emit (Uncaught thrown) w
      | Inr (Some sanity) \<Rightarrow> adduser_cb env held (Some sanity) w
      | Inr None \<Rightarrow> adduser_cb env held (Some uri_error) w)"
  using assms
  by (simp add: adduser_locked_def addUserToHTPasswd_def Let_def split: sum.splits option.splits)

text \<open>
  Claim C4, as amended. Let the user name differ from its percent-encoding. Then the
  events of \<open>adduser\<close> are exactly these. The first sanity check runs on the user map of
  the plugin: its error is reported at once. Else the file is locked and read: an error of
  the read other than a missing file is reported. Else the sanity check runs again, on the
  contents read (a missing file reads as empty): its error is reported, after the lock is
  released, if it was taken. Else the error about the user name is reported, after the
  release. A sanity check that throws leaves the exception uncaught and nothing is
  reported. So success is never reported and \<open>writeFile\<close> is never called: the contents
  and the modification time of the password file are as before.
\<close>

theorem adduser_unsafe_name:
  assumes unsafe: "user \<noteq> encodeURIComponent user"
  shows "events (snd (adduser c env user password (s, w))) = events w @
      (case sanityCheck user password (verifyPassword c) (users s) (maxUsers s) of
         Inl thrown \<Rightarrow> [Uncaught thrown]
       | Inr (Some sanity) \<Rightarrow> [RealCb (Some sanity) False]
       | Inr None \<Rightarrow>
           (case fst (lockAndRead env Passwd w) of
              Inl err \<Rightarrow>
                if err \<noteq> FsError ''ENOENT'' then [LockAndRead Passwd, RealCb (Some err) False]
                else LockAndRead Passwd #
                  (case sanityCheck user password (verifyPassword c) (parseHTPasswd [])
                          (maxUsers s) of
                     Inl thrown \<Rightarrow> [Uncaught thrown]
                   | Inr (Some sanity) \<Rightarrow> [RealCb (Some sanity) False]
                   | Inr None \<Rightarrow> [RealCb (Some uri_error) False])
            | Inr body \<Rightarrow>
                LockAndRead Passwd #
                  (case sanityCheck user password (verifyPassword c) (parseHTPasswd body)
                          (maxUsers s) of
                     Inl thrown \<Rightarrow> [Uncaught thrown]
                   | Inr (Some sanity) \<Rightarrow> [UnlockFile Passwd, RealCb (Some sanity) False]
                   | Inr None \<Rightarrow> [UnlockFile Passwd, RealCb (Some uri_error) False])))
     \<and> content (passwd_file (snd (adduser c env user password (s, w)))) = content (passwd_file w)
     \<and> mtime (passwd_file (snd (adduser c env user password (s, w)))) = mtime (passwd_file w)"
proof -
  obtain res w1 where lr: "lockAndRead env Passwd w = (res, w1)"
    by (cases "lockAndRead env Passwd w")
  have w1: "events w1 = events w @ [LockAndRead Passwd]"
    "content (passwd_file w1) = content (passwd_file w)"
    "mtime (passwd_file w1) = mtime (passwd_file w)"
    using lockAndRead_effect [of env w] lr by simp_all
  show ?thesis
    by (simp add: adduser_def lr w1 adduser_locked_unsafe [OF unsafe] events_adduser_cb
        passwd_adduser_cb emit_def split: sum.splits option.splits)
qed

text \<open>
  The theorem for the user name \<open>weird name\<close>, a new plugin and a password file that
  holds \<open>bob\<close>: the error about the user name is reported and the file is as it was.
\<close>

theorem adduser_unsafe_name_witness:
  "''weird name'' \<noteq> encodeURIComponent ''weird name''
   \<and> events (snd (adduser toy_crypto quiet_io ''weird name'' ''pw''
        (new_HTPasswd None, disk (Some ''bob:{PLAIN}secret'') None)))
       = [LockAndRead Passwd, UnlockFile Passwd, RealCb (Some uri_error) False]
   \<and> content (passwd_file (snd (adduser toy_crypto quiet_io ''weird name'' ''pw''
        (new_HTPasswd None, disk (Some ''bob:{PLAIN}secret'') None))))
       = Some ''bob:{PLAIN}secret''"
proof -
  let ?s = "new_HTPasswd None"
  let ?w = "disk (Some ''bob:{PLAIN}secret'') None"
  have unsafe: "''weird name'' \<noteq> encodeURIComponent ''weird name''"
    by (simp add: encodeURIComponent_def uri_unreserved_def percent_encode_def)
  have before: "sanityCheck ''weird name'' ''pw'' (verifyPassword toy_crypto) (users ?s) (maxUsers ?s)
      = Inr None"
    by (simp add: sanityCheck_def new_HTPasswd_def obj_read_def object_prototype_names_def
        obj_get_def object_keys_def)
  have read: "fst (lockAndRead quiet_io Passwd ?w) = Inr ''bob:{PLAIN}secret''"
    by (simp add: io_defs disk_def quiet_io_def)
  have after: "sanityCheck ''weird name'' ''pw'' (verifyPassword toy_crypto)
      (parseHTPasswd ''bob:{PLAIN}secret'') (maxUsers ?s) = Inr None"
    by (simp add: sanityCheck_def new_HTPasswd_def obj_read_def object_prototype_names_def
        obj_get_def object_keys_def parseHTPasswd_def parseHTPasswd_line_def
        str_split_limit_def obj_set_def)
  have start: "events ?w = []" and kept: "content (passwd_file ?w) = Some ''bob:{PLAIN}secret''"
    by (simp_all add: disk_def)
  from adduser_unsafe_name [OF unsafe, of toy_crypto quiet_io "''pw''" ?s ?w]
  show ?thesis
    by (simp add: unsafe before read after start kept)
qed

text \<open>
  The claim as it was stated fails when the sanity check finds something first: with
  \<open>weird name\<close> in the user map and a password that does not verify, the error
  reported is the one of the sanity check, status 401, not the one about the user name.
\<close>

theorem adduser_unsafe_name_sanity_first:
  "''weird name'' \<noteq> encodeURIComponent ''weird name''
   \<and> events (snd (adduser toy_crypto quiet_io ''weird name'' ''pw''
        ((new_HTPasswd None)\<lparr>users := [(''weird name'', ''{PLAIN}secret'')]\<rparr>, disk None None)))
       = [RealCb (Some (HttpError 401 ''unauthorized access'')) False]
   \<and> HttpError 401 ''unauthorized access'' \<noteq> uri_error"
  by (simp add: adduser_def sanityCheck_def obj_read_def emit_def disk_def obj_get_def
      uri_error_def verifyPassword_def match_bcrypt_def str_indexOf_def str_substr_def
      encodeURIComponent_def uri_unreserved_def percent_encode_def)

lemma adduser_locked_events:
  assumes "sanityCheck user password (verifyPassword c) (parseHTPasswd body) (maxUsers s)
      = Inr checked"
    and "err = (case checked of
                  Some sanity \<Rightarrow> Some sanity
                | None \<Rightarrow>
                    (case addUserToHTPasswd c (now env) body user password of
                       Inl thrown \<Rightarrow> Some thrown
                     | Inr body' \<Rightarrow> map_option FsError (write_fault env)))"
  shows "\<exists>mid w1. snd (adduser_locked c env user password held body (s, w))
                    = adduser_cb env held err w1
           \<and> events w1 = events w @ mid \<and> list_all is_file_access mid"
proof (cases checked)
  case (Some sanity)
  with assms show ?thesis
    by (intro exI [of _ "[]"] exI [of _ w]) (simp add: adduser_locked_def)
next
  case None
  show ?thesis
  proof (cases "addUserToHTPasswd c (now env) body user password")
    case (Inl thrown)
    with None assms show ?thesis
      by (intro exI [of _ "[]"] exI [of _ w]) (simp add: adduser_locked_def)
  next
    case (Inr body')
    obtain werr w1 where wr: "fs_writeFile env Passwd body' w = (werr, w1)"
      by (cases "fs_writeFile env Passwd body' w")
    with fs_writeFile_effect [of env body' w]
    have w1: "events w1 = events w @ [WriteFile Passwd body']"
      and werr: "werr = map_option FsError (write_fault env)" by simp_all
    show ?thesis
    proof (cases werr)
      case (Some e)
      have wr': "fs_writeFile env Passwd body' w = (Some e, w1)"
        using wr Some by simp
      have "err = Some e"
        using assms None Inr werr Some by simp
      with None Inr wr' assms(1) show ?thesis
        by (intro exI [of _ "[WriteFile Passwd body']"] exI [of _ w1])
          (simp add: adduser_locked_def w1)
    next
      case no_err: None
      let ?s1 = "s\<lparr>users := parseHTPasswd body\<rparr>"
      obtain mid where mid: "events (snd (snd (reload env (?s1, w1)))) = events w1 @ mid"
        "list_all is_file_access mid"
        using reload_effect by blast
      have wr': "fs_writeFile env Passwd body' w = (None, w1)"
        using wr no_err by simp
      from None Inr wr' assms(1)
      have "snd (adduser_locked c env user password held body (s, w))
          = adduser_cb env held None (snd (snd (reload env (?s1, w1))))"
        by (simp add: adduser_locked_def Let_def split: prod.splits)
      moreover have "err = None" using assms None Inr werr no_err by simp
      ultimately show ?thesis
        using mid w1
        by (intro exI [of _ "WriteFile Passwd body' # mid"]
            exI [of _ "snd (snd (reload env (?s1, w1)))"]) simp
    qed
  qed
qed

text \<open>
  The paths through the inner callback \<open>cb\<close> do release the lock. Let the first sanity
  check pass, \<open>lockAndRead\<close> succeed, and the second sanity check return. Then the events
  of \<open>adduser\<close> are the call of \<open>lockAndRead\<close>, calls that write, stat or read the file,
  then the call of \<open>unlockFile\<close>, and last the call of the caller's callback. What the
  callback gets is the error of the sanity check on the contents read, else the error
  thrown for the user name, else the error of the write, else success: the outcome of the
  release has no part in it. When the release itself does not fail, the lock is not held
  at the end.
\<close>

lemma adduser_releases_lock_when_check_returns:
  assumes first: "sanityCheck user password (verifyPassword c) (users s) (maxUsers s) = Inr None"
    and acquired: "fst (lockAndRead env Passwd w) = Inr body"
    and second: "sanityCheck user password (verifyPassword c) (parseHTPasswd body) (maxUsers s)
        = Inr checked"
    and err: "err = (case checked of
                  Some sanity \<Rightarrow> Some sanity
                | None \<Rightarrow>
                    (case addUserToHTPasswd c (now env) body user password of
                       Inl thrown \<Rightarrow> Some thrown
                     | Inr body' \<Rightarrow> map_option FsError (write_fault env)))"
  shows "(\<exists>mid. events (snd (adduser c env user password (s, w)))
             = events w @ LockAndRead Passwd # mid @ [UnlockFile Passwd, RealCb err (err = None)]
           \<and> list_all is_file_access mid)
     \<and> (unlock_fault env = None
          \<longrightarrow> \<not> lock_held (passwd_file (snd (adduser c env user password (s, w)))))"
proof -
  obtain w1 where lr: "lockAndRead env Passwd w = (Inr body, w1)"
    using acquired by (cases "lockAndRead env Passwd w") simp
  have w1: "events w1 = events w @ [LockAndRead Passwd]"
    using lockAndRead_effect [of env w] lr by simp
  have step: "snd (adduser c env user password (s, w))
      = snd (adduser_locked c env user password True body (s, w1))"
    using first lr by (simp add: adduser_def)
  obtain mid w2 where
    rep: "snd (adduser_locked c env user password True body (s, w1)) = adduser_cb env True err w2"
    and mid: "events w2 = events w1 @ mid" "list_all is_file_access mid"
    using adduser_locked_events [OF second err] by blast
  have "events (snd (adduser c env user password (s, w)))
      = events w @ LockAndRead Passwd # mid @ [UnlockFile Passwd, RealCb err (err = None)]"
    by (simp add: step rep events_adduser_cb mid w1)
  moreover have "unlock_fault env = None
      \<Longrightarrow> \<not> lock_held (passwd_file (snd (adduser c env user password (s, w))))"
    by (simp add: step rep adduser_cb_unlocks)
  ultimately show ?thesis using mid(2) by blast
qed

text \<open>
  Claim C5. The lock is not released on every path. The second sanity check runs under
  the lock and outside the \<open>try\<close>. Let the first sanity check pass and \<open>lockAndRead\<close>
  succeed, so that the lock is held. When the second sanity check throws, which it does
  when the verifier throws on the hash read from the file, the events of \<open>adduser\<close> end
  with the uncaught exception: there is no call of \<open>unlockFile\<close> and no call of the
  callback, and the lock is still held.
\<close>

theorem adduser_keeps_lock_when_check_throws:
  assumes first: "sanityCheck user password (verifyPassword c) (users s) (maxUsers s) = Inr None"
    and acquired: "fst (lockAndRead env Passwd w) = Inr body"
    and second: "sanityCheck user password (verifyPassword c) (parseHTPasswd body) (maxUsers s)
        = Inl thrown"
  shows "events (snd (adduser c env user password (s, w)))
           = events w @ [LockAndRead Passwd, Uncaught thrown]
     \<and> lock_held (passwd_file (snd (adduser c env user password (s, w))))"
proof -
  obtain w1 where lr: "lockAndRead env Passwd w = (Inr body, w1)"
    using acquired by (cases "lockAndRead env Passwd w") simp
  have w1: "events w1 = events w @ [LockAndRead Passwd]" "lock_held (passwd_file w1)"
    using lockAndRead_effect [of env w] lockAndRead_holds [OF acquired] lr by simp_all
  show ?thesis
    using first lr second w1
    by (simp add: adduser_def adduser_locked_def emit_def)
qed

text \<open>
  The theorem where the password file holds \<open>bob\<close> with a bcrypt hash of 60 characters
  and 99 rounds, and the user map of the plugin is empty: \<open>adduser\<close> for \<open>bob\<close> takes
  the lock, the verifier throws on this hash, and the lock is held at the end.
\<close>

theorem adduser_check_throws_under_lock:
  "fst (lockAndRead quiet_io Passwd (disk (Some (''bob:'' @ bad_bcrypt_hash)) None))
     = Inr (''bob:'' @ bad_bcrypt_hash)
   \<and> events (snd (adduser toy_crypto quiet_io ''bob'' ''pw''
      (new_HTPasswd None, disk (Some (''bob:'' @ bad_bcrypt_hash)) None)))
     = [LockAndRead Passwd, Uncaught (JsError ''Illegal number of rounds (4-31): 99'')]
   \<and> lock_held (passwd_file (snd (adduser toy_crypto quiet_io ''bob'' ''pw''
      (new_HTPasswd None, disk (Some (''bob:'' @ bad_bcrypt_hash)) None))))"
proof -
  let ?s = "new_HTPasswd None"
  let ?w = "disk (Some (''bob:'' @ bad_bcrypt_hash)) None"
  have first: "sanityCheck ''bob'' ''pw'' (verifyPassword toy_crypto) (users ?s) (maxUsers ?s)
      = Inr None"
    by (simp add: sanityCheck_def new_HTPasswd_def obj_read_def object_prototype_names_def
        obj_get_def object_keys_def)
  have acquired: "fst (lockAndRead quiet_io Passwd ?w) = Inr (''bob:'' @ bad_bcrypt_hash)"
    by (simp add: io_defs disk_def quiet_io_def)
  have second: "sanityCheck ''bob'' ''pw'' (verifyPassword toy_crypto)
      (parseHTPasswd (''bob:'' @ bad_bcrypt_hash)) (maxUsers ?s)
      = Inl (JsError ''Illegal number of rounds (4-31): 99'')"
    by (simp add: sanityCheck_def new_HTPasswd_def obj_read_def obj_get_def
        parseHTPasswd_def parseHTPasswd_line_def str_split_limit_def obj_set_def
        object_keys_def verifyPassword_def match_bcrypt_def bad_bcrypt_hash_def
        toy_crypto_def digits_value_def)
  have start: "events ?w = []"
    by (simp add: disk_def)
  from adduser_keeps_lock_when_check_throws [OF first acquired second] acquired start
  show ?thesis by simp
qed

text \<open>
  A user name that names a property of \<open>Object.prototype\<close> and is not in the user map
  reads as the inherited function, on which the verifier throws a \<open>TypeError\<close>:
  \<open>adduser\<close> for \<open>toString\<close> on a new plugin throws and reports nothing.
\<close>

lemma adduser_inherited_name_throws:
  "events (snd (adduser toy_crypto quiet_io ''toString'' ''pw'' (new_HTPasswd None, disk None None)))
   = [Uncaught TypeError]"
  by (simp add: adduser_def sanityCheck_def obj_read_def object_prototype_names_def
      new_HTPasswd_def obj_get_def verifyPassword_def emit_def disk_def)

text \<open>
  The check after the read: a user name that is not in the user map of the plugin but is
  bound to a non-empty hash in the file read under the lock is refused as well, when the
  verifier returns, with the same two errors, after the lock is released and without a
  write.
\<close>

lemma adduser_registered_in_file:
  assumes first: "sanityCheck user password (verifyPassword c) (users s) (maxUsers s) = Inr None"
    and acquired: "fst (lockAndRead env Passwd w) = Inr body"
    and bound: "obj_get (parseHTPasswd body) user = Some hash" and hash: "hash \<noteq> []"
    and returns: "verifyPassword c password (Str hash) = Inr auth"
  shows "events (snd (adduser c env user password (s, w)))
     = events w @ [LockAndRead Passwd, UnlockFile Passwd,
         RealCb (Some (if auth then HttpError 409 ''username is already registered''
                       else HttpError 401 ''unauthorized access'')) False]"
proof -
  from first have given: "user \<noteq> []" "password \<noteq> []"
    by (auto simp: sanityCheck_def split: if_splits)
  obtain w1 where lr: "lockAndRead env Passwd w = (Inr body, w1)"
    using acquired by (cases "lockAndRead env Passwd w") simp
  have w1: "events w1 = events w @ [LockAndRead Passwd]"
    using lockAndRead_effect [of env w] lr by simp
  have again: "sanityCheck user password (verifyPassword c) (parseHTPasswd body) (maxUsers s)
      = Inr (Some (if auth then HttpError 409 ''username is already registered''
                   else HttpError 401 ''unauthorized access''))"
    using given returns by (simp add: sanityCheck_bound [OF bound hash given(1)])
  show ?thesis
    using first lr again
    by (simp add: adduser_def adduser_locked_def events_adduser_cb w1)
qed

section \<open>Reloading\<close>

lemma object_assign_lookup:
  "distinct (object_keys source) \<Longrightarrow> ''__proto__'' \<notin> set (object_keys source) \<Longrightarrow>
     obj_get (object_assign target source) k
       = (case obj_get source k of Some v \<Rightarrow> Some v | None \<Rightarrow> obj_get target k)"
proof (induction source arbitrary: target)
  case Nil
  show ?case by (simp add: object_assign_def obj_get_def)
next
  case (Cons p source)
  obtain k0 v0 where p: "p = (k0, v0)" by (cases p)
  from Cons.prems p have k0: "k0 \<noteq> ''__proto__''" "k0 \<notin> set (object_keys source)"
    and rest: "distinct (object_keys source)" "''__proto__'' \<notin> set (object_keys source)"
    by (auto simp: object_keys_def)
  have "object_assign target (p # source) = object_assign (obj_set k0 v0 target) source"
    by (simp add: object_assign_def p)
  moreover have "obj_get source k0 = None"
    using k0(2) by (simp add: obj_get_def object_keys_def map_of_eq_None_iff)
  moreover have "obj_get (p # source) k = (if k = k0 then Some v0 else obj_get source k)"
    by (simp add: obj_get_def p)
  ultimately show ?case
    using Cons.IH [OF rest, of "obj_set k0 v0 target"] k0(1)
    by (auto simp: obj_get_obj_set split: option.splits)
qed

lemma object_assign_keys:
  "set (object_keys target) \<subseteq> set (object_keys (object_assign target source))"
proof (induction source arbitrary: target)
  case Nil
  show ?case by (simp add: object_assign_def)
next
  case (Cons p source)
  obtain k0 v0 where p: "p = (k0, v0)" by (cases p)
  have "set (object_keys target) \<subseteq> set (object_keys (obj_set k0 v0 target))"
    by (auto simp: keys_obj_set)
  also have "\<dots> \<subseteq> set (object_keys (object_assign (obj_set k0 v0 target) source))"
    by (rule Cons.IH)
  finally show ?case by (simp add: object_assign_def p)
qed

lemma parseHTPasswd_keys:
  "distinct (object_keys (parseHTPasswd input))
   \<and> ''__proto__'' \<notin> set (object_keys (parseHTPasswd input))"
proof -
  have step: "distinct (object_keys (parseHTPasswd_line r l))
      \<and> ''__proto__'' \<notin> set (object_keys (parseHTPasswd_line r l))"
    if "distinct (object_keys r) \<and> ''__proto__'' \<notin> set (object_keys r)" for r l
    using that by (simp add: parseHTPasswd_line_def Let_def distinct_obj_set keys_obj_set)
  have "distinct (object_keys (foldl parseHTPasswd_line r ls))
      \<and> ''__proto__'' \<notin> set (object_keys (foldl parseHTPasswd_line r ls))"
    if "distinct (object_keys r) \<and> ''__proto__'' \<notin> set (object_keys r)" for r ls
    using that by (induction ls arbitrary: r) (simp_all add: step)
  from this [of "[]"] show ?thesis
    by (simp add: parseHTPasswd_def object_keys_def)
qed

lemma parseHTgroup_keys:
  "distinct (object_keys (parseHTgroup input))
   \<and> ''__proto__'' \<notin> set (object_keys (parseHTgroup input))"
proof -
  have step: "distinct (object_keys (parseHTgroup_line r l))
      \<and> ''__proto__'' \<notin> set (object_keys (parseHTgroup_line r l))"
    if "distinct (object_keys r) \<and> ''__proto__'' \<notin> set (object_keys r)" for r l
    using that by (simp add: parseHTgroup_line_def Let_def distinct_obj_set keys_obj_set)
  have "distinct (object_keys (foldl parseHTgroup_line r ls))
      \<and> ''__proto__'' \<notin> set (object_keys (foldl parseHTgroup_line r ls))"
    if "distinct (object_keys r) \<and> ''__proto__'' \<notin> set (object_keys r)" for r ls
    using that by (induction ls arbitrary: r) (simp_all add: step)
  from this [of "[]"] show ?thesis
    by (simp add: parseHTgroup_def object_keys_def)
qed

text \<open>
  What \<open>reload\<close> does to the user map: nothing, or it assigns the parsed contents of the
  file to the map. The assignment is a merge: a key of the parsed contents gets the parsed
  value, every other key keeps its value, and no key is removed. \<open>reloadGroups\<close> does
  the same to the group map.
\<close>

lemma reload_merges:
  "users (fst (snd (reload env (s, w)))) = users s
   \<or> (\<exists>buffer. content (passwd_file w) = Some buffer
         \<and> users (fst (snd (reload env (s, w)))) = object_assign (users s) (parseHTPasswd buffer)
         \<and> (\<forall>k. obj_get (users (fst (snd (reload env (s, w))))) k
                 = (case obj_get (parseHTPasswd buffer) k of
                      Some v \<Rightarrow> Some v
                    | None \<Rightarrow> obj_get (users s) k))
         \<and> set (object_keys (users s)) \<subseteq> set (object_keys (users (fst (snd (reload env (s, w)))))))"
  using parseHTPasswd_keys
  by (auto simp: reload_def io_defs Let_def object_assign_lookup
      split: option.splits sum.splits prod.splits dest: subsetD [OF object_assign_keys])

lemma reloadGroups_merges:
  "groups (fst (snd (reloadGroups env (s, w)))) = groups s
   \<or> (\<exists>buffer. content (group_file w) = Some buffer
         \<and> groups (fst (snd (reloadGroups env (s, w))))
             = object_assign (groups s) (parseHTgroup buffer)
         \<and> (\<forall>k. obj_get (groups (fst (snd (reloadGroups env (s, w))))) k
                 = (case obj_get (parseHTgroup buffer) k of
                      Some v \<Rightarrow> Some v
                    | None \<Rightarrow> obj_get (groups s) k))
         \<and> set (object_keys (groups s))
             \<subseteq> set (object_keys (groups (fst (snd (reloadGroups env (s, w)))))))"
  using parseHTgroup_keys
  by (auto simp: reloadGroups_def io_defs Let_def object_assign_lookup
      split: option.splits sum.splits prod.splits dest: subsetD [OF object_assign_keys])

text \<open>When the last seen \<open>mtime\<close> is the very object the \<open>stat\<close> returns, nothing is read.\<close>

lemma reload_same_object:
  "fst (fs_stat env Passwd w) = Inr d \<Longrightarrow> strict_eq (lastTime s) d \<Longrightarrow>
     reload env (s, w) = (None, s, snd (fs_stat env Passwd w))"
  by (cases "fs_stat env Passwd w") (simp add: reload_def)

text \<open>
  Claim C9. The comparison \<open>this.lastTime === stats.mtime\<close> is between two \<open>Date\<close>
  objects, and every \<open>stat\<close> makes a new one: it is false also when the modification time
  of the file is the time last seen. Here the time last seen and the modification time of
  the file are both \<open>1000\<close>, the map binds \<open>bob\<close> to \<open>old\<close> and the file holds
  \<open>bob:new\<close>: \<open>reload\<close> reads the file and the map changes. \<open>reloadGroups\<close> does the
  same with the group \<open>g\<close>.
\<close>

theorem reload_same_mtime_rereads:
  "reload quiet_io
     ((new_HTPasswd None)\<lparr>users := [(''bob'', ''old'')],
         lastTime := Some \<lparr>date_ref = 0, date_time = 1000\<rparr>\<rparr>,
      disk (Some ''bob:new'') None)
   = (None,
      (new_HTPasswd None)\<lparr>users := [(''bob'', ''new'')],
         lastTime := Some \<lparr>date_ref = 1, date_time = 1000\<rparr>\<rparr>,
      (disk (Some ''bob:new'') None)\<lparr>next_ref := 2, events := [Stat Passwd, ReadFile Passwd]\<rparr>)
   \<and> reloadGroups quiet_io
     ((new_HTPasswd None)\<lparr>groups := [(''g'', [''old''])],
         lastTimeGroup := Some \<lparr>date_ref = 0, date_time = 1000\<rparr>\<rparr>,
      disk None (Some ''g:new''))
   = (None,
      (new_HTPasswd None)\<lparr>groups := [(''g'', [''new''])],
         lastTimeGroup := Some \<lparr>date_ref = 1, date_time = 1000\<rparr>\<rparr>,
      (disk None (Some ''g:new''))\<lparr>next_ref := 2, events := [Stat Group, ReadFile Group]\<rparr>)"
  by (simp add: reload_def reloadGroups_def io_defs strict_eq_def new_HTPasswd_def disk_def
      quiet_io_def object_assign_def parseHTPasswd_def parseHTPasswd_line_def parseHTgroup_def
      parseHTgroup_line_def str_split_limit_def obj_set_def object_keys_def Let_def)

end
